theory Spec2Isabelle
  imports
    Complex_Main
    "HOL-Library.Multiset"
    "HOL-Library.Sublist"
    "HOL-Library.Char_ord"
    "HOL-Library.List_Lexorder"
    "HOL-Library.Product_Lexorder"
begin

section \<open>The room-hire dashboard (test2.py)\<close>

text \<open>
  The script loads a spreadsheet into a pandas DataFrame, filters it by four
  multiselect widgets and derives six aggregate views from the filtered frame.
  A DataFrame is modelled as the list of its rows in index order; a column
  (pandas Series) is the list of that field's values in the same order, so two
  columns taken from one frame are aligned position by position.

  Every named column is populated: the categorical columns and the room name
  are strings, Capacity is an integer, the three numeric columns are numbers.
  The aggregates are defined first with exact finite numbers and the special
  values of 64-bit floats (infinities, NaN); the rounding of each operation to
  a float64 is defined beside them and used where a property depends on it.
\<close>

subsection \<open>Rows and columns\<close>

record row =
  Organisation_Name :: string
  Names_of_Room :: string
  Location :: string
  Capacity :: int
  Time_of_day :: string
  Minimum_Duration_per_hour :: rat
  Price_per_hour :: rat
  Cost_per_person :: rat
  Capacity_tier :: string

type_synonym dataframe = "row list"

text \<open>\<^verbatim>\<open>df["name"]\<close>: the column of a frame.\<close>

definition col :: "(row \<Rightarrow> 'a) \<Rightarrow> dataframe \<Rightarrow> 'a list" where
  "col f df = map f df"

text \<open>\<^verbatim>\<open>Series.unique()\<close>: the distinct values in order of first appearance.\<close>

definition unique :: "'a list \<Rightarrow> 'a list" where
  "unique xs = rev (remdups (rev xs))"

subsection \<open>Sidebar filters and the filtered frame (lines 55 to 85)\<close>

text \<open>\<^verbatim>\<open>Series.isin(values)\<close>: the boolean mask of membership.\<close>

definition isin :: "'a list \<Rightarrow> 'a list \<Rightarrow> bool list" where
  "isin series vals = map (\<lambda>v. v \<in> set vals) series"

text \<open>\<^verbatim>\<open>mask1 & mask2\<close> on two aligned boolean columns.\<close>

definition mask_and :: "bool list \<Rightarrow> bool list \<Rightarrow> bool list" where
  "mask_and a b = map2 (\<and>) a b"

text \<open>\<^verbatim>\<open>df[mask]\<close>: the rows whose mask entry is true, in frame order.\<close>

definition mask_rows :: "'r list \<Rightarrow> bool list \<Rightarrow> 'r list" where
  "mask_rows df m = map fst (filter snd (zip df m))"

text \<open>
  The four widget values are the lists the multiselects return; their options
  and defaults are the \<open>unique\<close> values of the unfiltered frame.
\<close>

definition default_selection :: "(row \<Rightarrow> string) \<Rightarrow> dataframe \<Rightarrow> string list" where
  "default_selection f df = unique (col f df)"

definition df_selection ::
  "dataframe \<Rightarrow> string list \<Rightarrow> string list \<Rightarrow> string list \<Rightarrow> string list \<Rightarrow> dataframe" where
  "df_selection df organisation_name time_of_day location capacity_tier =
     mask_rows df
       (mask_and
         (mask_and
           (mask_and (isin (col Organisation_Name df) organisation_name)
                     (isin (col Time_of_day df) time_of_day))
           (isin (col Location df) location))
         (isin (col Capacity_tier df) capacity_tier))"

subsection \<open>Floating-point values\<close>

text \<open>
  A cell or result of float dtype: a finite number, an infinity or NaN. The
  arithmetic is IEEE 754 on the special values and exact on finite ones; zero
  is unsigned.
\<close>

datatype fval = Num rat | PInf | NInf | NaN

fun fadd :: "fval \<Rightarrow> fval \<Rightarrow> fval" where
  "fadd (Num a) (Num b) = Num (a + b)"
| "fadd NaN _ = NaN"
| "fadd _ NaN = NaN"
| "fadd PInf NInf = NaN"
| "fadd NInf PInf = NaN"
| "fadd PInf _ = PInf"
| "fadd _ PInf = PInf"
| "fadd NInf _ = NInf"
| "fadd _ NInf = NInf"


text \<open>
  True division as numpy performs it under pandas: a zero divisor raises
  nothing and yields an infinity of the dividend's sign, or NaN for \<open>0 / 0\<close>.
\<close>

fun fdiv :: "fval \<Rightarrow> fval \<Rightarrow> fval" where
  "fdiv (Num a) (Num b) =
     (if b = 0 then (if a = 0 then NaN else if 0 < a then PInf else NInf)
      else Num (a / b))"
| "fdiv NaN _ = NaN"
| "fdiv _ NaN = NaN"
| "fdiv (Num a) PInf = Num 0"
| "fdiv (Num a) NInf = Num 0"
| "fdiv PInf (Num b) = (if 0 \<le> b then PInf else NInf)"
| "fdiv NInf (Num b) = (if 0 \<le> b then NInf else PInf)"
| "fdiv PInf PInf = NaN"
| "fdiv PInf NInf = NaN"
| "fdiv NInf PInf = NaN"
| "fdiv NInf NInf = NaN"

definition fsum :: "fval list \<Rightarrow> fval" where
  "fsum xs = foldl fadd (Num 0) xs"

text \<open>A float column from a numeric column, and from the integer column.\<close>

definition float_col :: "(row \<Rightarrow> rat) \<Rightarrow> dataframe \<Rightarrow> fval list" where
  "float_col f df = map Num (col f df)"

definition int_col :: "(row \<Rightarrow> int) \<Rightarrow> dataframe \<Rightarrow> fval list" where
  "int_col f df = map (\<lambda>c. Num (of_int c)) (col f df)"

text \<open>\<^verbatim>\<open>Series.sum()\<close> and \<^verbatim>\<open>Series.mean()\<close> with the default \<^verbatim>\<open>skipna=True\<close>:
  NaN entries are left out; the mean of no entries is NaN.\<close>

definition series_sum :: "fval list \<Rightarrow> fval" where
  "series_sum s = fsum (filter (\<lambda>v. v \<noteq> NaN) s)"

definition series_mean :: "fval list \<Rightarrow> fval" where
  "series_mean s =
     (let count = length (filter (\<lambda>v. v \<noteq> NaN) s);
          the_sum = series_sum s
      in if 0 < count then fdiv the_sum (Num (of_nat count)) else NaN)"

text \<open>\<^verbatim>\<open>a / b\<close> on two aligned columns.\<close>

definition series_truediv :: "fval list \<Rightarrow> fval list \<Rightarrow> fval list" where
  "series_truediv a b = map2 fdiv a b"

subsection \<open>Rounding to float64\<close>

text \<open>
  The definitions so far compute with exact finite numbers. The machine keeps
  a float64: 53 significant bits, exponents from -1022 to 1023, each result
  rounded to the nearest such number with ties to the even significand,
  overflowing to an infinity and going subnormal below \<open>2 ^ -1022\<close>.
\<close>

definition round_half_even :: "rat \<Rightarrow> int" where
  "round_half_even x =
     (let f = \<lfloor>x\<rfloor>; d = x - of_int f
      in if d < 1 / 2 then f else if 1 / 2 < d then f + 1
         else if even f then f else f + 1)"

definition pow2 :: "int \<Rightarrow> rat" where
  "pow2 e = (if 0 \<le> e then 2 ^ nat e else 1 / 2 ^ nat (- e))"

function bit_length :: "int \<Rightarrow> nat" where
  "bit_length n = (if n \<le> 0 then 0 else Suc (bit_length (n div 2)))"
  by pat_completeness auto
termination
  by (relation "measure nat") auto

declare bit_length.simps [simp del]

text \<open>The exponent \<open>e\<close> of a positive number: \<open>2 ^ e \<le> x < 2 ^ (e + 1)\<close>.\<close>

definition exponent :: "rat \<Rightarrow> int" where
  "exponent x =
     (case quotient_of x of
        (p, q) \<Rightarrow>
          (let e = int (bit_length p) - int (bit_length q)
           in if pow2 e \<le> x then e else e - 1))"

definition round_f64 :: "rat \<Rightarrow> fval" where
  "round_f64 x =
     (if x = 0 then Num 0
      else
        (let e = max (exponent \<bar>x\<bar>) (- 1022);
             ulp = pow2 (e - 52);
             m = round_half_even (\<bar>x\<bar> / ulp)
         in if 1023 < e \<or> (e = 1023 \<and> 2 ^ 53 \<le> m)
            then (if 0 < x then PInf else NInf)
            else Num (if 0 < x then of_int m * ulp else - (of_int m * ulp))))"

definition f64 :: "fval \<Rightarrow> fval" where
  "f64 v = (case v of Num q \<Rightarrow> round_f64 q | _ \<Rightarrow> v)"






subsection \<open>Metrics and grouped means (lines 92 to 105, 153)\<close>

text \<open>
  \<^verbatim>\<open>df.groupby(key)[val].mean().reset_index()\<close>: one entry per distinct key of
  the frame, keys in ascending order (\<^verbatim>\<open>sort=True\<close> is the default), each with
  the mean of the value column over the rows of that key.
\<close>

definition groupby_mean ::
  "(row \<Rightarrow> 'k::linorder) \<Rightarrow> (row \<Rightarrow> rat) \<Rightarrow> dataframe \<Rightarrow> ('k \<times> fval) list" where
  "groupby_mean key val df =
     map (\<lambda>k. (k, series_mean (float_col val (filter (\<lambda>r. key r = k) df))))
       (sort (unique (col key df)))"




definition avg_price_per_person :: "dataframe \<Rightarrow> fval" where
  "avg_price_per_person sel =
     series_mean (series_truediv (float_col Price_per_hour sel) (int_col Capacity sel))"


definition avg_price_by_duration :: "dataframe \<Rightarrow> (rat \<times> fval) list" where
  "avg_price_by_duration sel = groupby_mean Minimum_Duration_per_hour Price_per_hour sel"





subsection \<open>Metric labels (lines 98 and 99)\<close>

text \<open>
  The format \<^verbatim>\<open>:.2f\<close> of a float64: the words Python prints for the special
  values, and otherwise two decimals, the exact value of the float64 rounded
  to the nearest hundredth with ties to even.
\<close>

definition digit :: "nat \<Rightarrow> char" where
  "digit n = char_of (48 + n)"

fun dec_digits :: "nat \<Rightarrow> string" where
  "dec_digits n = (if n < 10 then [digit n] else dec_digits (n div 10) @ [digit (n mod 10)])"

declare dec_digits.simps [simp del]

definition fmt_2f :: "fval \<Rightarrow> string" where
  "fmt_2f v =
     (case f64 v of
        NaN \<Rightarrow> ''nan''
      | PInf \<Rightarrow> ''inf''
      | NInf \<Rightarrow> ''-inf''
      | Num d \<Rightarrow>
          (let n = nat (round_half_even (\<bar>d\<bar> * 100))
           in (if d < 0 then ''-'' else []) @ dec_digits (n div 100) @ ''.'' @
              [digit (n div 10 mod 10), digit (n mod 10)]))"




subsection \<open>Heatmap pivot (lines 130 to 133)\<close>

text \<open>
  \<^verbatim>\<open>pivot_table(index, columns, values, aggfunc="mean")\<close>: the mean per pair of
  keys, groups whose mean is NaN dropped, then unstacked into a grid over the
  sorted index and column values that remain, with NaN where a pair has no
  group; columns that are NaN throughout are dropped at the end.
\<close>

record heatmap =
  hm_index :: "string list"
  hm_columns :: "string list"
  hm_values :: "fval list list"

definition pivot_table_mean ::
  "(row \<Rightarrow> string) \<Rightarrow> (row \<Rightarrow> string) \<Rightarrow> (row \<Rightarrow> rat) \<Rightarrow> dataframe \<Rightarrow> heatmap" where
  "pivot_table_mean index columns vals df =
     (let agged = filter (\<lambda>(k, m). m \<noteq> NaN) (groupby_mean (\<lambda>r. (index r, columns r)) vals df);
          idx = sort (unique (map (fst \<circ> fst) agged));
          cols = sort (unique (map (snd \<circ> fst) agged));
          cell = (\<lambda>i c. case map_of agged (i, c) of Some m \<Rightarrow> m | None \<Rightarrow> NaN);
          kept = filter (\<lambda>c. list_ex (\<lambda>i. cell i c \<noteq> NaN) idx) cols
      in \<lparr>hm_index = idx, hm_columns = kept, hm_values = map (\<lambda>i. map (cell i) kept) idx\<rparr>)"

definition heatmap_data :: "dataframe \<Rightarrow> heatmap" where
  "heatmap_data sel = pivot_table_mean Capacity_tier Time_of_day Cost_per_person sel"

subsection \<open>Top five rooms (line 146)\<close>

text \<open>
  \<^verbatim>\<open>sort_values(by, ascending=False)\<close> is called without a \<^verbatim>\<open>kind\<close>, so it
  sorts with the default \<^verbatim>\<open>quicksort\<close>, which pandas documents as not stable.
  Whatever the routine, the result is a rearrangement of the rows in
  non-increasing order of the key; \<open>sort_values_desc\<close> says so of a frame and a
  result.
\<close>

definition sort_values_desc :: "(row \<Rightarrow> rat) \<Rightarrow> dataframe \<Rightarrow> dataframe \<Rightarrow> bool" where
  "sort_values_desc by df out \<longleftrightarrow>
     mset out = mset df \<and> sorted_wrt (\<lambda>a b. by b \<le> by a) out"

text \<open>\<^verbatim>\<open>head(n)\<close>: the first \<open>n\<close> rows, all of them when there are fewer.\<close>

definition head :: "nat \<Rightarrow> 'a list \<Rightarrow> 'a list" where
  "head n xs = take n xs"

text \<open>\<open>top_rooms\<close> from the sorted frame.\<close>

definition top_rooms :: "dataframe \<Rightarrow> dataframe" where
  "top_rooms sorted_sel = head 5 sorted_sel"

text \<open>
  The sort itself. \<^verbatim>\<open>sort_values\<close> on one column takes the rows at the
  positions pandas' \<^verbatim>\<open>nargsort\<close> returns. For a descending sort \<^verbatim>\<open>nargsort\<close>
  reverses the keys and their positions, asks numpy for the ascending
  \<^verbatim>\<open>argsort\<close> of the reversed keys with the kind it was given (here the default,
  \<^verbatim>\<open>quicksort\<close>), reads the positions off through that result and reverses
  them again. numpy's routine is not part of the script; it is the parameter
  \<open>argsort\<close>. Its results are always positions of the key list, so each read
  below is in range.
\<close>

definition nargsort_desc :: "(rat list \<Rightarrow> nat list) \<Rightarrow> rat list \<Rightarrow> nat list" where
  "nargsort_desc argsort items =
     (let idx = [0..<length items];
          non_nans = rev items;
          non_nan_idx = rev idx;
          indexer = map (\<lambda>p. non_nan_idx ! p) (argsort non_nans)
      in rev indexer)"

definition take_rows :: "'r list \<Rightarrow> nat list \<Rightarrow> 'r list" where
  "take_rows df indexer = map (\<lambda>i. df ! i) indexer"

definition sort_values :: "(rat list \<Rightarrow> nat list) \<Rightarrow> (row \<Rightarrow> rat) \<Rightarrow> dataframe \<Rightarrow> dataframe" where
  "sort_values argsort by df = take_rows df (nargsort_desc argsort (col by df))"

text \<open>
  What numpy promises of \<^verbatim>\<open>argsort\<close> whatever the kind: the positions of the
  keys, each once, in an order that makes the keys ascend.
\<close>

definition argsort_ok :: "(rat list \<Rightarrow> nat list) \<Rightarrow> rat list \<Rightarrow> bool" where
  "argsort_ok argsort keys \<longleftrightarrow>
     mset (argsort keys) = mset [0..<length keys] \<and>
     sorted (map (\<lambda>p. keys ! p) (argsort keys))"

text \<open>
  Two routines numpy runs for the default kind. Without vector instructions
  and up to sixteen keys it is an insertion sort of the positions, which keeps
  equal keys in order.
\<close>

definition insertion_argsort :: "rat list \<Rightarrow> nat list" where
  "insertion_argsort keys = sort_key (\<lambda>p. keys ! p) [0..<length keys]"

text \<open>
  With vector instructions (AVX2 or AVX-512) numpy sorts short inputs by a
  network of compare-exchange steps on registers of key and position lanes.
  Up to four keys fit one register of four lanes: lanes beyond the keys hold
  the largest value (\<open>None\<close>) with position 0, and three steps are run: each lane
  against its neighbour, against its mirror image, against its neighbour
  again; the flags say which lanes keep the larger key. A lane takes the
  other lane's key and position only when that key differs from its own.
\<close>

type_synonym lane = "rat option \<times> nat"

definition key_less :: "rat option \<Rightarrow> rat option \<Rightarrow> bool" where
  "key_less a b =
     (case (a, b) of
        (Some x, Some y) \<Rightarrow> x < y
      | (Some x, None) \<Rightarrow> True
      | (None, _) \<Rightarrow> False)"

definition cmp_merge :: "bool \<Rightarrow> lane \<Rightarrow> lane \<Rightarrow> lane" where
  "cmp_merge take_max own other =
     (if take_max then (if key_less (fst own) (fst other) then other else own)
      else (if key_less (fst other) (fst own) then other else own))"

definition network_step :: "nat list \<Rightarrow> bool list \<Rightarrow> lane list \<Rightarrow> lane list" where
  "network_step partner keep_max lanes =
     map (\<lambda>l. cmp_merge (keep_max ! l) (lanes ! l) (lanes ! (partner ! l))) [0..<length lanes]"

definition sort_reg_4lanes :: "lane list \<Rightarrow> lane list" where
  "sort_reg_4lanes lanes =
     network_step [1, 0, 3, 2] [False, True, False, True]
       (network_step [3, 2, 1, 0] [False, False, True, True]
         (network_step [1, 0, 3, 2] [False, True, False, True] lanes))"

definition load_lanes :: "rat list \<Rightarrow> lane list" where
  "load_lanes keys =
     map (\<lambda>l. if l < length keys then (Some (keys ! l), l) else (None, 0)) [0..<4]"

text \<open>
  Longer inputs use more registers and merging steps that differ between the
  instruction sets; they are not modelled, and \<open>vector_argsort\<close> continues with
  the insertion sort there. It is numpy's routine on at most four keys.
\<close>

definition vector_argsort :: "rat list \<Rightarrow> nat list" where
  "vector_argsort keys =
     (if length keys \<le> 4
      then take (length keys) (map snd (sort_reg_4lanes (load_lanes keys)))
      else insertion_argsort keys)"

subsection \<open>Page navigation (lines 20 to 31)\<close>

text \<open>
  The session state holds the page under the key \<^verbatim>\<open>page\<close>, absent (\<open>None\<close>)
  until the first run. One pass over the navigation block takes the two button
  values of this run and returns the page together with whether \<^verbatim>\<open>st.rerun()\<close>
  was called, which ends the pass at once.
\<close>

type_synonym session_state = "string option"

definition nav_pass :: "session_state \<Rightarrow> bool \<Rightarrow> bool \<Rightarrow> string \<times> bool" where
  "nav_pass st home_btn about_btn =
     (let page = (case st of None \<Rightarrow> ''Home'' | Some p \<Rightarrow> p)
      in if home_btn then (''Home'', True)
         else if about_btn then (''About'', True)
         else (page, False))"

text \<open>A run of the script: a rerun starts the pass again with no button pressed.\<close>

definition run_script :: "session_state \<Rightarrow> bool \<Rightarrow> bool \<Rightarrow> session_state" where
  "run_script st home_btn about_btn =
     (case nav_pass st home_btn about_btn of
        (page, rerun) \<Rightarrow>
          if rerun then Some (fst (nav_pass (Some page) False False)) else Some page)"

text \<open>
  A session: the run at session start, then one run per user interaction, each
  given as the pair of button values.
\<close>

definition session :: "(bool \<times> bool) list \<Rightarrow> session_state" where
  "session events =
     foldl (\<lambda>st (home_btn, about_btn). run_script st home_btn about_btn)
       (run_script None False False) events"

subsection \<open>Reference notions of the specification\<close>

text \<open>The arithmetic mean of a list of numbers: their sum over their count.\<close>

definition arith_mean :: "rat list \<Rightarrow> rat" where
  "arith_mean xs = sum_list xs / of_nat (length xs)"


text \<open>
  The ratio Price per Hour over Capacity of one row, the arithmetic mean of
  that ratio over all rows (sum of the ratios over the number of rows), and the
  ratio of the two column means.
\<close>

definition row_ratio :: "row \<Rightarrow> fval" where
  "row_ratio r = fdiv (Num (Price_per_hour r)) (Num (of_int (Capacity r)))"

definition mean_of_row_ratios :: "dataframe \<Rightarrow> fval" where
  "mean_of_row_ratios sel = fdiv (fsum (map row_ratio sel)) (Num (of_nat (length sel)))"

definition ratio_of_means :: "dataframe \<Rightarrow> fval" where
  "ratio_of_means sel =
     fdiv (series_mean (float_col Price_per_hour sel)) (series_mean (int_col Capacity sel))"

text \<open>
  The pivot cell the specification describes: the mean Cost per Person of the
  rows of one tier and one time of day, undefined (NaN) when there is no such
  row.
\<close>

definition pivot_cell :: "dataframe \<Rightarrow> string \<Rightarrow> string \<Rightarrow> fval" where
  "pivot_cell sel t d =
     (let g = filter (\<lambda>r. Capacity_tier r = t \<and> Time_of_day r = d) sel
      in if g = [] then NaN else Num (arith_mean (map Cost_per_person g)))"

text \<open>A descending sort that keeps rows of equal key in their original order.\<close>

definition stable_sort_desc :: "(row \<Rightarrow> rat) \<Rightarrow> dataframe \<Rightarrow> dataframe" where
  "stable_sort_desc by df = sort_key (\<lambda>r. - by r) df"

text \<open>A division whose divisor is zero: the first branch of \<open>fdiv\<close>.\<close>

definition zero_division :: "fval \<times> fval \<Rightarrow> bool" where
  "zero_division p = (case p of (Num a, Num b) \<Rightarrow> b = 0 | _ \<Rightarrow> False)"

subsection \<open>Fixtures\<close>

definition mk_row :: "string \<Rightarrow> string \<Rightarrow> string \<Rightarrow> int \<Rightarrow> string \<Rightarrow> rat \<Rightarrow> rat \<Rightarrow> rat \<Rightarrow> string \<Rightarrow> row" where
  "mk_row org room loc cap tod dur price cost tier =
     \<lparr>Organisation_Name = org, Names_of_Room = room, Location = loc, Capacity = cap,
      Time_of_day = tod, Minimum_Duration_per_hour = dur, Price_per_hour = price,
      Cost_per_person = cost, Capacity_tier = tier\<rparr>"

definition fixture :: dataframe where
  "fixture =
     [mk_row ''CCH'' ''Hall A'' ''Centre'' 10 ''Day'' 2 20 2 ''Small'',
      mk_row ''CCH'' ''Hall B'' ''Centre'' 40 ''Evening'' 1 60 (3/2) ''Large'',
      mk_row ''Guild'' ''Loft'' ''North'' 5 ''Day'' 2 40 8 ''Small'']"

text \<open>A frame whose first row has price and capacity both zero.\<close>

definition zero_fixture :: dataframe where
  "zero_fixture =
     [mk_row ''CCH'' ''Store'' ''Centre'' 0 ''Day'' 1 0 0 ''Small'',
      mk_row ''CCH'' ''Hall A'' ''Centre'' 2 ''Day'' 1 10 5 ''Small'']"

text \<open>Two rooms at the same price, and four rooms at two prices.\<close>

definition tie_fixture :: dataframe where
  "tie_fixture =
     [mk_row ''CCH'' ''Hall A'' ''Centre'' 10 ''Day'' 1 30 3 ''Small'',
      mk_row ''CCH'' ''Hall B'' ''Centre'' 10 ''Day'' 1 30 3 ''Small'']"

definition tie_frame :: dataframe where
  "tie_frame =
     [mk_row ''CCH'' ''Room A'' ''Centre'' 10 ''Day'' 1 10 1 ''Small'',
      mk_row ''CCH'' ''Room B'' ''Centre'' 10 ''Day'' 1 10 1 ''Small'',
      mk_row ''CCH'' ''Room C'' ''Centre'' 10 ''Day'' 1 30 3 ''Small'',
      mk_row ''CCH'' ''Room D'' ''Centre'' 10 ''Day'' 1 30 3 ''Small'']"


section \<open>Properties of the filter\<close>

lemma unique_set [simp]: "set (unique xs) = set xs"
  by (simp add: unique_def)

lemma mask_rows_map:
  "mask_rows df (map P df) = filter P df"
  by (induction df) (simp_all add: mask_rows_def)

lemma mask_and_map:
  "mask_and (map P df) (map Q df) = map (\<lambda>r. P r \<and> Q r) df"
  by (induction df) (simp_all add: mask_and_def)

lemma df_selection_filter:
  "df_selection df org tod loc tier =
     filter (\<lambda>r. Organisation_Name r \<in> set org \<and> Time_of_day r \<in> set tod \<and>
                 Location r \<in> set loc \<and> Capacity_tier r \<in> set tier) df"
  by (simp add: df_selection_def isin_def col_def mask_and_map mask_rows_map)

text \<open>
  C1: when each of the four selections holds exactly the distinct values of its
  column in the unfiltered frame, the filtered frame is the frame itself.
\<close>

theorem full_selection_keeps_dataset:
  assumes "set organisation_name = set (default_selection Organisation_Name df)"
    and "set time_of_day = set (default_selection Time_of_day df)"
    and "set location = set (default_selection Location df)"
    and "set capacity_tier = set (default_selection Capacity_tier df)"
  shows "df_selection df organisation_name time_of_day location capacity_tier = df"
  using assms by (simp add: df_selection_filter default_selection_def col_def)

theorem full_selection_keeps_dataset_witness:
  "df_selection fixture [''Guild'', ''CCH''] [''Day'', ''Evening''] [''Centre'', ''North'']
     [''Large'', ''Small''] = fixture"
  by (rule full_selection_keeps_dataset)
     (simp_all add: default_selection_def fixture_def mk_row_def col_def unique_def insert_commute)

text \<open>
  C9: the filtered frame is a subsequence of the frame: only rows of the frame,
  unchanged, in the frame's order.
\<close>

theorem df_selection_subseq:
  "subseq (df_selection df organisation_name time_of_day location capacity_tier) df"
  by (simp add: df_selection_filter)


section \<open>Properties of the aggregates\<close>

lemma foldl_fadd_Num:
  "foldl fadd (Num a) (map Num xs) = Num (a + sum_list xs)"
  by (induction xs arbitrary: a) (simp_all add: add.assoc)

lemma fsum_Num: "fsum (map Num xs) = Num (sum_list xs)"
  by (simp add: fsum_def foldl_fadd_Num)

lemma filter_not_NaN_Num: "filter (\<lambda>v. v \<noteq> NaN) (map Num xs) = map Num xs"
  by (induction xs) simp_all

lemma series_sum_Num: "series_sum (map Num xs) = Num (sum_list xs)"
  by (simp add: series_sum_def filter_not_NaN_Num fsum_Num)

lemma series_mean_Num:
  "series_mean (map Num xs) =
     (if xs = [] then NaN else Num (sum_list xs / of_nat (length xs)))"
  by (simp add: series_mean_def series_sum_Num filter_not_NaN_Num)




lemma group_keys_sorted: "sorted (sort (unique (col key df)))"
  by simp

lemma group_keys_distinct: "distinct (sort (unique (col key df)))"
  by (simp add: unique_def)

lemma group_keys_set: "set (sort (unique (col key df))) = key ` set df"
  by (simp add: col_def)

lemma groupby_mean_keys: "map fst (groupby_mean key val df) = sort (unique (col key df))"
  by (simp add: groupby_mean_def comp_def)

lemma series_mean_float_col:
  "series_mean (float_col val df) = (if df = [] then NaN else Num (arith_mean (map val df)))"
  unfolding float_col_def col_def
  using series_mean_Num [of "map val df"] by (simp add: arith_mean_def)


lemma group_mean_entry:
  assumes "k \<in> key ` set df"
  shows "series_mean (float_col val (filter (\<lambda>r. key r = k) df))
           = Num (arith_mean (map val (filter (\<lambda>r. key r = k) df)))"
proof -
  from assms have "filter (\<lambda>r. key r = k) df \<noteq> []"
    by (auto simp: filter_empty_conv)
  then show ?thesis
    by (simp add: series_mean_float_col)
qed

lemma groupby_mean_arith:
  "groupby_mean key val df =
     map (\<lambda>k. (k, Num (arith_mean (map val (filter (\<lambda>r. key r = k) df)))))
       (sort (unique (col key df)))"
  unfolding groupby_mean_def
  by (rule map_cong) (simp_all add: group_mean_entry col_def)










text \<open>
  C7: the duration series has one entry per Minimum Duration value of the
  filtered frame, each with the arithmetic mean of Price per Hour over the rows
  of that duration, and its durations are strictly ascending.
\<close>

theorem avg_price_by_duration_ascending:
  "avg_price_by_duration sel =
     map (\<lambda>d. (d, Num (arith_mean (map Price_per_hour
                      (filter (\<lambda>r. Minimum_Duration_per_hour r = d) sel)))))
       (map fst (avg_price_by_duration sel)) \<and>
   sorted_wrt (<) (map fst (avg_price_by_duration sel)) \<and>
   set (map fst (avg_price_by_duration sel)) = Minimum_Duration_per_hour ` set sel"
proof -
  have keys: "map fst (avg_price_by_duration sel) = sort (unique (col Minimum_Duration_per_hour sel))"
    by (simp only: avg_price_by_duration_def groupby_mean_keys)
  show ?thesis
    unfolding keys
  proof (intro conjI)
    show "avg_price_by_duration sel =
       map (\<lambda>d. (d, Num (arith_mean (map Price_per_hour
                        (filter (\<lambda>r. Minimum_Duration_per_hour r = d) sel)))))
         (sort (unique (col Minimum_Duration_per_hour sel)))"
      by (simp only: avg_price_by_duration_def groupby_mean_arith)
    show "sorted_wrt (<) (sort (unique (col Minimum_Duration_per_hour sel)))"
      by (simp only: strict_sorted_iff group_keys_sorted group_keys_distinct simp_thms)
    show "set (sort (unique (col Minimum_Duration_per_hour sel))) = Minimum_Duration_per_hour ` set sel"
      by (rule group_keys_set)
  qed
qed

subsection \<open>Average price per person\<close>

lemma series_truediv_rows:
  "series_truediv (float_col Price_per_hour sel) (int_col Capacity sel) = map row_ratio sel"
  by (induction sel) (simp_all add: series_truediv_def float_col_def int_col_def col_def row_ratio_def)

lemma row_ratio_NaN: "row_ratio r = NaN \<longleftrightarrow> Price_per_hour r = 0 \<and> Capacity r = 0"
  by (simp add: row_ratio_def)

lemma row_ratio_nonzero: "Capacity r \<noteq> 0 \<Longrightarrow> row_ratio r = Num (Price_per_hour r / of_int (Capacity r))"
  by (simp add: row_ratio_def)

lemma avg_price_per_person_no_NaN:
  assumes "sel \<noteq> []" and "\<forall>r\<in>set sel. row_ratio r \<noteq> NaN"
  shows "avg_price_per_person sel = mean_of_row_ratios sel"
proof -
  from assms(2) have "filter (\<lambda>v. v \<noteq> NaN) (map row_ratio sel) = map row_ratio sel"
    by (simp add: filter_id_conv)
  with assms(1) show ?thesis
    by (simp add: avg_price_per_person_def series_truediv_rows series_mean_def series_sum_def
          mean_of_row_ratios_def)
qed

lemma fixture_avg_price_per_person: "avg_price_per_person fixture = Num (23 / 6)"
  by (simp add: avg_price_per_person_def series_truediv_rows fixture_def mk_row_def row_ratio_def
        series_mean_def series_sum_def fsum_def)

lemma fixture_ratio_of_means: "ratio_of_means fixture = Num (24 / 11)"
  by (simp add: ratio_of_means_def float_col_def int_col_def col_def fixture_def mk_row_def
        series_mean_def series_sum_def fsum_def)

text \<open>
  C3 as stated fails on a frame with a row whose price and capacity are both
  zero: that row's ratio is NaN, the mean leaves it out and returns the mean of
  the other rows, while the mean over all rows is NaN.
\<close>

theorem avg_price_per_person_skips_nan_counterexample:
  "zero_fixture \<noteq> [] \<and> avg_price_per_person zero_fixture = Num 5 \<and>
   mean_of_row_ratios zero_fixture = NaN \<and>
   avg_price_per_person zero_fixture \<noteq> mean_of_row_ratios zero_fixture"
  by (simp add: avg_price_per_person_def series_truediv_rows zero_fixture_def mk_row_def
        row_ratio_def series_mean_def series_sum_def fsum_def mean_of_row_ratios_def)

text \<open>
  C3, amended: for every non-empty filtered frame in which no row has price and
  capacity both zero, the average price per person is the arithmetic mean over
  the rows of the per-row ratio Price per Hour over Capacity; it is not the
  ratio of the column means, from which it differs on the fixture.
\<close>

theorem avg_price_per_person_mean_of_ratios:
  assumes "sel \<noteq> []"
    and "\<forall>r\<in>set sel. \<not> (Price_per_hour r = 0 \<and> Capacity r = 0)"
  shows "avg_price_per_person sel = mean_of_row_ratios sel \<and>
         avg_price_per_person fixture \<noteq> ratio_of_means fixture"
proof
  from assms(2) have "\<forall>r\<in>set sel. row_ratio r \<noteq> NaN"
    by (simp add: row_ratio_NaN)
  with assms(1) show "avg_price_per_person sel = mean_of_row_ratios sel"
    by (rule avg_price_per_person_no_NaN)
  show "avg_price_per_person fixture \<noteq> ratio_of_means fixture"
    by (simp add: fixture_avg_price_per_person fixture_ratio_of_means)
qed

theorem avg_price_per_person_mean_of_ratios_witness:
  "fixture \<noteq> [] \<and> list_all (\<lambda>r. \<not> (Price_per_hour r = 0 \<and> Capacity r = 0)) fixture \<and>
   avg_price_per_person fixture = mean_of_row_ratios fixture \<and>
   mean_of_row_ratios fixture = Num (23 / 6)"
proof -
  have ne: "fixture \<noteq> []"
    by (simp add: fixture_def)
  have nz: "\<forall>r\<in>set fixture. \<not> (Price_per_hour r = 0 \<and> Capacity r = 0)"
    by (simp add: fixture_def mk_row_def)
  from avg_price_per_person_mean_of_ratios [OF ne nz] ne nz show ?thesis
    by (simp add: fixture_avg_price_per_person list_all_iff)
qed

text \<open>
  C10: when every row of the filtered frame has a non-zero Capacity, no
  division of the per-row ratio has a zero divisor: each ratio is the finite
  number price over capacity, and the average is finite on a non-empty frame.
\<close>

theorem nonzero_capacity_no_zero_division:
  assumes "\<forall>r\<in>set sel. Capacity r \<noteq> 0"
  shows "\<not> list_ex zero_division (zip (float_col Price_per_hour sel) (int_col Capacity sel)) \<and>
         series_truediv (float_col Price_per_hour sel) (int_col Capacity sel)
           = map (\<lambda>r. Num (Price_per_hour r / of_int (Capacity r))) sel \<and>
         avg_price_per_person sel
           = (if sel = [] then NaN
              else Num (arith_mean (map (\<lambda>r. Price_per_hour r / of_int (Capacity r)) sel)))"
proof (intro conjI)
  show "\<not> list_ex zero_division (zip (float_col Price_per_hour sel) (int_col Capacity sel))"
    using assms by (induction sel) (simp_all add: float_col_def int_col_def col_def zero_division_def)
  have ratios: "map row_ratio sel = map Num (map (\<lambda>r. Price_per_hour r / of_int (Capacity r)) sel)"
    using assms by (simp add: row_ratio_nonzero)
  then show "series_truediv (float_col Price_per_hour sel) (int_col Capacity sel)
           = map (\<lambda>r. Num (Price_per_hour r / of_int (Capacity r))) sel"
    by (simp add: series_truediv_rows)
  show "avg_price_per_person sel
           = (if sel = [] then NaN
              else Num (arith_mean (map (\<lambda>r. Price_per_hour r / of_int (Capacity r)) sel)))"
    unfolding avg_price_per_person_def series_truediv_rows ratios
    by (simp only: series_mean_Num arith_mean_def) simp
qed

theorem nonzero_capacity_no_zero_division_witness:
  "list_all (\<lambda>r. Capacity r \<noteq> 0) fixture \<and>
   \<not> list_ex zero_division (zip (float_col Price_per_hour fixture) (int_col Capacity fixture)) \<and>
   series_truediv (float_col Price_per_hour fixture) (int_col Capacity fixture)
     = [Num 2, Num (3 / 2), Num 8] \<and>
   avg_price_per_person fixture = Num (23 / 6)"
proof -
  have nz: "\<forall>r\<in>set fixture. Capacity r \<noteq> 0"
    by (simp add: fixture_def mk_row_def)
  from nonzero_capacity_no_zero_division [OF nz] nz show ?thesis
    by (simp add: fixture_def mk_row_def arith_mean_def list_all_iff)
qed

text \<open>With a zero Capacity the zero-divisor branch is taken and no error is raised.\<close>

lemma zero_capacity_takes_branch:
  "list_ex zero_division (zip (float_col Price_per_hour zero_fixture) (int_col Capacity zero_fixture)) \<and>
   series_truediv (float_col Price_per_hour zero_fixture) (int_col Capacity zero_fixture)
     = [NaN, Num 5]"
  by (simp add: zero_fixture_def mk_row_def float_col_def int_col_def col_def zero_division_def
        series_truediv_def)


subsection \<open>Labels\<close>

lemma fmt_2f_examples:
  "fmt_2f (Num (23 / 6)) = ''3.83'' \<and> fmt_2f (Num (- 1 / 8)) = ''-0.12'' \<and>
   fmt_2f (Num (1205 / 100)) = ''12.05'' \<and> fmt_2f (Num (107 / 40)) = ''2.67'' \<and>
   fmt_2f NaN = ''nan''"
  by code_simp


subsection \<open>Heatmap pivot\<close>

lemma sort_unique_set: "sort (unique xs) = sorted_list_of_set (set xs)"
proof -
  have "distinct (unique xs)"
    by (simp add: unique_def)
  then have "sort (remdups (unique xs)) = sort (unique xs)"
    by (simp only: distinct_remdups_id)
  moreover have "sorted_list_of_set (set (unique xs)) = sort (remdups (unique xs))"
    by (rule sorted_list_of_set_sort_remdups)
  ultimately show ?thesis
    by simp
qed

lemma filter_keep_Num:
  "filter (\<lambda>(k, m). m \<noteq> NaN) (map (\<lambda>k. (k, Num (f k))) ks) = map (\<lambda>k. (k, Num (f k))) ks"
  by (induction ks) simp_all

lemma map_of_keyed:
  "map_of (map (\<lambda>k. (k, g k)) ks) x = (if x \<in> set ks then Some (g x) else None)"
  by (induction ks) simp_all

lemma pivot_table_mean_grid:
  fixes index columns :: "row \<Rightarrow> string"
  defines "cellv \<equiv> \<lambda>vals df i c.
     (let g = filter (\<lambda>r. index r = i \<and> columns r = c) df
      in if g = [] then NaN else Num (arith_mean (map vals g)))"
  shows "pivot_table_mean index columns vals df =
     \<lparr>hm_index = sort (unique (col index df)),
      hm_columns = sort (unique (col columns df)),
      hm_values = map (\<lambda>i. map (cellv vals df i) (sort (unique (col columns df))))
                    (sort (unique (col index df)))\<rparr>"
proof -
  let ?key = "\<lambda>r. (index r, columns r)"
  let ?ks = "sort (unique (col ?key df))"
  let ?f = "\<lambda>k. arith_mean (map vals (filter (\<lambda>r. ?key r = k) df))"
  let ?agged = "map (\<lambda>k. (k, Num (?f k))) ?ks"
  let ?idx = "sort (unique (col index df))"
  let ?cols = "sort (unique (col columns df))"
  let ?cell = "\<lambda>i c. case map_of ?agged (i, c) of Some m \<Rightarrow> m | None \<Rightarrow> NaN"
  have agged: "filter (\<lambda>(k, m). m \<noteq> NaN) (groupby_mean ?key vals df) = ?agged"
    by (simp only: groupby_mean_arith filter_keep_Num)
  have ks: "set ?ks = ?key ` set df"
    by (rule group_keys_set)
  have idx: "sort (unique (map (fst \<circ> fst) ?agged)) = ?idx"
    by (simp add: sort_unique_set ks col_def image_image comp_def)
  have cols: "sort (unique (map (snd \<circ> fst) ?agged)) = ?cols"
    by (simp add: sort_unique_set ks col_def image_image comp_def)
  have cell: "?cell i c = cellv vals df i c" for i c
  proof -
    have "(i, c) \<in> set ?ks \<longleftrightarrow> filter (\<lambda>r. index r = i \<and> columns r = c) df \<noteq> []"
      unfolding ks by (auto simp: filter_empty_conv)
    moreover have "filter (\<lambda>r. ?key r = (i, c)) df = filter (\<lambda>r. index r = i \<and> columns r = c) df"
      by simp
    ultimately show ?thesis
      by (simp add: map_of_keyed cellv_def Let_def)
  qed
  have kept: "filter (\<lambda>c. list_ex (\<lambda>i. ?cell i c \<noteq> NaN) ?idx) ?cols = ?cols"
  proof -
    have "list_ex (\<lambda>i. ?cell i c \<noteq> NaN) ?idx" if "c \<in> set ?cols" for c
    proof -
      from that obtain r where r: "r \<in> set df" "columns r = c"
        by (auto simp: col_def)
      then have "index r \<in> set ?idx"
        by (simp add: col_def)
      moreover from r have "filter (\<lambda>x. index x = index r \<and> columns x = c) df \<noteq> []"
        by (auto simp: filter_empty_conv)
      then have "cellv vals df (index r) c \<noteq> NaN"
        by (simp add: cellv_def Let_def)
      ultimately show ?thesis
        unfolding list_ex_iff cell by blast
    qed
    then show ?thesis
      by (simp only: filter_id_conv) blast
  qed
  show ?thesis
    unfolding pivot_table_mean_def agged Let_def idx cols kept
    by (simp only: cell)
qed

text \<open>
  C6: the pivot is a grid whose index holds exactly the Capacity Tier values of
  the filtered frame and whose columns hold exactly its Time of Day values,
  each once and in ascending order; a cell with matching rows holds the mean
  Cost per Person of those rows, and a cell without any is NaN (undefined,
  drawn blank), which is not the number zero.
\<close>

theorem heatmap_data_grid:
  "sorted_wrt (<) (hm_index (heatmap_data sel)) \<and>
   set (hm_index (heatmap_data sel)) = Capacity_tier ` set sel \<and>
   sorted_wrt (<) (hm_columns (heatmap_data sel)) \<and>
   set (hm_columns (heatmap_data sel)) = Time_of_day ` set sel \<and>
   hm_values (heatmap_data sel) =
     map (\<lambda>t. map (pivot_cell sel t) (hm_columns (heatmap_data sel))) (hm_index (heatmap_data sel)) \<and>
   NaN \<noteq> Num 0"
proof -
  have idx: "hm_index (heatmap_data sel) = sort (unique (col Capacity_tier sel))"
    and cols: "hm_columns (heatmap_data sel) = sort (unique (col Time_of_day sel))"
    by (simp_all add: heatmap_data_def pivot_table_mean_grid)
  have vals: "hm_values (heatmap_data sel) =
     map (\<lambda>t. map (pivot_cell sel t) (hm_columns (heatmap_data sel))) (hm_index (heatmap_data sel))"
    by (simp add: heatmap_data_def pivot_table_mean_grid pivot_cell_def)
  have "sorted_wrt (<) (sort (unique (col key sel)))" for key :: "row \<Rightarrow> string"
    by (simp only: strict_sorted_iff group_keys_sorted group_keys_distinct simp_thms)
  then have "sorted_wrt (<) (hm_index (heatmap_data sel))"
    and "sorted_wrt (<) (hm_columns (heatmap_data sel))"
    by (simp_all only: idx cols)
  moreover have "set (hm_index (heatmap_data sel)) = Capacity_tier ` set sel"
    and "set (hm_columns (heatmap_data sel)) = Time_of_day ` set sel"
    by (simp_all only: idx cols group_keys_set)
  ultimately show ?thesis
    using vals by simp
qed

lemma heatmap_data_fixture:
  "heatmap_data fixture =
     \<lparr>hm_index = [''Large'', ''Small''], hm_columns = [''Day'', ''Evening''],
      hm_values = [[NaN, Num (3 / 2)], [Num 5, NaN]]\<rparr>"
  by (simp add: heatmap_data_def pivot_table_mean_grid fixture_def mk_row_def col_def unique_def
        arith_mean_def)


subsection \<open>Top five rooms\<close>

lemma sort_values_desc_keys:
  assumes "sort_values_desc by df s"
  shows "map by (head n s) = map by (head n (stable_sort_desc by df))"
proof -
  let ?f = "\<lambda>r. - by r"
  from assms have perm: "mset s = mset df" and ord: "sorted_wrt (\<lambda>a b. by b \<le> by a) s"
    by (simp_all add: sort_values_desc_def)
  from ord have "sorted (map ?f s)"
    by (simp add: sorted_map)
  moreover from perm have "mset (map ?f s) = mset (map ?f df)"
    by simp
  ultimately have s: "sort (map ?f df) = map ?f s"
    by (rule properties_for_sort [rotated])
  have "sorted (map ?f (sort_key ?f df))"
    by (rule sorted_sort_key)
  moreover have "mset (map ?f (sort_key ?f df)) = mset (map ?f df)"
    by simp
  ultimately have "sort (map ?f df) = map ?f (sort_key ?f df)"
    by (rule properties_for_sort [rotated])
  with s have "map ?f s = map ?f (stable_sort_desc by df)"
    by (simp add: stable_sort_desc_def)
  then have "map uminus (map ?f (take n s)) = map uminus (map ?f (take n (stable_sort_desc by df)))"
    by (simp only: take_map [symmetric])
  then show ?thesis
    by (simp add: head_def comp_def)
qed

lemma sort_values_desc_head:
  assumes "sort_values_desc by df s"
  shows "length (head n s) = min n (length df)"
    and "sorted_wrt (\<lambda>a b. by b \<le> by a) (head n s)"
    and "mset (head n s) \<subseteq># mset df"
    and "\<forall>x\<in>#mset df - mset (head n s). \<forall>y\<in>set (head n s). by x \<le> by y"
proof -
  from assms have perm: "mset s = mset df" and ord: "sorted_wrt (\<lambda>a b. by b \<le> by a) s"
    by (simp_all add: sort_values_desc_def)
  from perm have "length s = length df"
    by (rule mset_eq_length)
  then show "length (head n s) = min n (length df)"
    by (simp add: head_def min.commute)
  from ord show "sorted_wrt (\<lambda>a b. by b \<le> by a) (head n s)"
    by (simp add: head_def sorted_wrt_take)
  have split: "mset df = mset (take n s) + mset (drop n s)"
    by (simp only: perm [symmetric] union_code append_take_drop_id)
  then show "mset (head n s) \<subseteq># mset df"
    by (simp add: head_def)
  from ord have "sorted_wrt (\<lambda>a b. by b \<le> by a) (take n s @ drop n s)"
    by simp
  then have "\<forall>y\<in>set (take n s). \<forall>x\<in>set (drop n s). by x \<le> by y"
    by (simp only: sorted_wrt_append) blast
  moreover from split have "mset df - mset (head n s) = mset (drop n s)"
    by (simp add: head_def)
  ultimately show "\<forall>x\<in>#mset df - mset (head n s). \<forall>y\<in>set (head n s). by x \<le> by y"
    by (auto simp: head_def)
qed

lemma sort_values_rows:
  assumes "argsort_ok argsort (rev (col by df))"
  shows "sort_values argsort by df = rev (map (\<lambda>q. rev df ! q) (argsort (rev (col by df))))"
    and "\<forall>q\<in>set (argsort (rev (col by df))). q < length df"
proof -
  let ?p = "argsort (rev (col by df))"
  from assms have "mset ?p = mset [0..<length df]"
    by (simp add: argsort_ok_def col_def)
  then have "set ?p = set [0..<length df]"
    by (rule mset_eq_setD)
  then show inrange: "\<forall>q\<in>set ?p. q < length df"
    by simp
  have "map (\<lambda>q. df ! (rev [0..<length df] ! q)) ?p = map (\<lambda>q. rev df ! q) ?p"
  proof (rule map_cong)
    fix q assume "q \<in> set ?p"
    with inrange have q: "q < length df"
      by blast
    then have "rev [0..<length df] ! q = length df - Suc q"
      by (simp add: rev_nth)
    with q show "df ! (rev [0..<length df] ! q) = rev df ! q"
      by (simp add: rev_nth)
  qed simp
  then show "sort_values argsort by df = rev (map (\<lambda>q. rev df ! q) ?p)"
    by (simp add: sort_values_def take_rows_def nargsort_desc_def col_def rev_map comp_def)
qed

lemma sort_values_sorted_perm:
  assumes "argsort_ok argsort (rev (col by df))"
  shows "sort_values_desc by df (sort_values argsort by df)"
proof -
  let ?p = "argsort (rev (col by df))"
  note rows = sort_values_rows [OF assms]
  from assms have perm: "mset ?p = mset [0..<length (rev df)]"
    and srt: "sorted (map (\<lambda>q. rev (col by df) ! q) ?p)"
    by (simp_all add: argsort_ok_def col_def)
  have "mset (map (\<lambda>q. rev df ! q) ?p) = image_mset (\<lambda>q. rev df ! q) (mset [0..<length (rev df)])"
    by (simp only: mset_map perm)
  also have "\<dots> = mset (map (\<lambda>q. rev df ! q) [0..<length (rev df)])"
    by simp
  also have "\<dots> = mset (rev df)"
    by (simp only: map_nth)
  finally have m: "mset (sort_values argsort by df) = mset df"
    by (simp add: rows(1))
  have eq: "map by (map (\<lambda>q. rev df ! q) ?p) = map (\<lambda>q. rev (col by df) ! q) ?p"
    using rows(2) by (simp add: col_def rev_map)
  from srt have "sorted (map by (map (\<lambda>q. rev df ! q) ?p))"
    by (simp only: eq)
  then have "sorted_wrt (\<lambda>a b. by a \<le> by b) (map (\<lambda>q. rev df ! q) ?p)"
    by (simp only: sorted_map)
  then have "sorted_wrt (\<lambda>a b. by b \<le> by a) (sort_values argsort by df)"
    by (simp only: rows(1) sorted_wrt_rev)
  with m show ?thesis
    by (simp add: sort_values_desc_def)
qed

lemma insertion_argsort_ok: "argsort_ok insertion_argsort keys"
  by (simp add: argsort_ok_def insertion_argsort_def)

text \<open>
  C5 as stated fails: on four rooms priced 10, 10, 30, 30 the vector routine
  returns the rooms in the order D, C, B, A, while a stable descending sort
  gives C, D, A, B.
\<close>

theorem top_rooms_tie_order_counterexample:
  "map Names_of_Room (top_rooms (sort_values vector_argsort Price_per_hour tie_frame))
     = [''Room D'', ''Room C'', ''Room B'', ''Room A''] \<and>
   map Names_of_Room (head 5 (stable_sort_desc Price_per_hour tie_frame))
     = [''Room C'', ''Room D'', ''Room A'', ''Room B''] \<and>
   top_rooms (sort_values vector_argsort Price_per_hour tie_frame)
     \<noteq> head 5 (stable_sort_desc Price_per_hour tie_frame)"
proof -
  have a: "top_rooms (sort_values vector_argsort Price_per_hour tie_frame) = rev tie_frame"
    by (simp add: top_rooms_def head_def sort_values_def take_rows_def nargsort_desc_def col_def
          vector_argsort_def sort_reg_4lanes_def network_step_def load_lanes_def cmp_merge_def
          key_less_def tie_frame_def mk_row_def upt_rec)
  have b: "head 5 (stable_sort_desc Price_per_hour tie_frame)
             = [tie_frame ! 2, tie_frame ! 3, tie_frame ! 0, tie_frame ! 1]"
    by (simp add: head_def stable_sort_desc_def tie_frame_def mk_row_def)
  show ?thesis
    unfolding a b by (simp add: tie_frame_def mk_row_def)
qed

text \<open>On the two rooms of equal price the same routine keeps the frame's order.\<close>

lemma top_rooms_tie_fixture:
  "top_rooms (sort_values vector_argsort Price_per_hour tie_fixture) = tie_fixture \<and>
   top_rooms (sort_values insertion_argsort Price_per_hour tie_frame)
     = head 5 (stable_sort_desc Price_per_hour tie_frame)"
  by (simp add: top_rooms_def head_def sort_values_def take_rows_def nargsort_desc_def col_def
        vector_argsort_def sort_reg_4lanes_def network_step_def load_lanes_def cmp_merge_def
        key_less_def tie_fixture_def tie_frame_def mk_row_def upt_rec insertion_argsort_def
        stable_sort_desc_def)

text \<open>
  C5, amended: whichever routine numpy runs, the top-5 aggregate is the first
  five rows (all of them when the filtered frame has fewer) of the frame
  rearranged in non-increasing order of Price per Hour; its prices are those of
  the stable descending sort, and every row left out costs no more than every
  row kept. Which of several rows of equal price come first depends on the
  routine and is not the frame's order in general.
\<close>

theorem top_rooms_descending_prefix:
  assumes "argsort_ok argsort (rev (col Price_per_hour sel))"
  shows "length (top_rooms (sort_values argsort Price_per_hour sel)) = min 5 (length sel) \<and>
         sorted_wrt (\<lambda>a b. Price_per_hour b \<le> Price_per_hour a)
           (top_rooms (sort_values argsort Price_per_hour sel)) \<and>
         mset (top_rooms (sort_values argsort Price_per_hour sel)) \<subseteq># mset sel \<and>
         (\<forall>x\<in>#mset sel - mset (top_rooms (sort_values argsort Price_per_hour sel)).
            \<forall>y\<in>set (top_rooms (sort_values argsort Price_per_hour sel)).
              Price_per_hour x \<le> Price_per_hour y) \<and>
         map Price_per_hour (top_rooms (sort_values argsort Price_per_hour sel))
           = map Price_per_hour (head 5 (stable_sort_desc Price_per_hour sel))"
proof -
  note s = sort_values_sorted_perm [OF assms]
  show ?thesis
    unfolding top_rooms_def
    using sort_values_desc_head [OF s, of 5] sort_values_desc_keys [OF s, of 5]
    by blast
qed

theorem top_rooms_descending_prefix_witness:
  "argsort_ok vector_argsort (rev (col Price_per_hour tie_frame)) \<and>
   length (top_rooms (sort_values vector_argsort Price_per_hour tie_frame)) = 4 \<and>
   map Price_per_hour (top_rooms (sort_values vector_argsort Price_per_hour tie_frame))
     = [30, 30, 10, 10] \<and>
   map Price_per_hour (head 5 (stable_sort_desc Price_per_hour tie_frame)) = [30, 30, 10, 10]"
proof -
  have ok: "argsort_ok vector_argsort (rev (col Price_per_hour tie_frame))"
    by (simp add: argsort_ok_def col_def vector_argsort_def sort_reg_4lanes_def network_step_def
          load_lanes_def cmp_merge_def key_less_def tie_frame_def mk_row_def upt_rec)
  have len: "length tie_frame = 4"
    by (simp add: tie_frame_def)
  have "map Price_per_hour (head 5 (stable_sort_desc Price_per_hour tie_frame)) = [30, 30, 10, 10]"
    by (simp add: head_def stable_sort_desc_def tie_frame_def mk_row_def)
  with top_rooms_descending_prefix [OF ok] ok len show ?thesis
    by simp
qed

subsection \<open>Navigation\<close>

lemma run_script_cases:
  "run_script st True about_btn = Some ''Home''"
  "run_script st False True = Some ''About''"
  "run_script (Some p) False False = Some p"
  "run_script None False False = Some ''Home''"
  by (simp_all add: run_script_def nav_pass_def)

lemma run_script_pages:
  assumes "st \<in> {Some ''Home'', Some ''About''}"
  shows "run_script st home_btn about_btn \<in> {Some ''Home'', Some ''About''}"
proof (cases home_btn)
  case True
  then show ?thesis by (simp add: run_script_cases)
next
  case False
  with assms show ?thesis
    by (cases about_btn) (auto simp: run_script_cases)
qed

text \<open>
  C8: the page is Home after the run at session start; a run with the Home
  button pressed leaves Home, a run with the About button pressed leaves
  About, a run with neither leaves the page as it was; after any sequence of
  runs the page is Home or About, and both buttons keep working from either.
\<close>

theorem navigation_state:
  "session [] = Some ''Home'' \<and>
   run_script st True about_btn = Some ''Home'' \<and>
   run_script st False True = Some ''About'' \<and>
   run_script (Some p) False False = Some p \<and>
   session events \<in> {Some ''Home'', Some ''About''}"
proof -
  have "session events \<in> {Some ''Home'', Some ''About''}"
  proof (induction events rule: rev_induct)
    case Nil
    show ?case by (simp add: session_def run_script_cases)
  next
    case (snoc e events)
    obtain h a where e: "e = (h, a)"
      by (cases e)
    have "session (events @ [e]) = run_script (session events) h a"
      by (simp add: session_def e)
    with run_script_pages [OF snoc.IH, of h a] show ?case
      by simp
  qed
  then show ?thesis
    by (simp add: session_def run_script_cases)
qed


subsection \<open>An empty selection\<close>










end
